theory Spec2Isabelle
  imports Main
begin

section \<open>Python strings\<close>

text \<open>
  A Python \<open>str\<close> is a sequence of Unicode code points; the model keeps it as the list
  of their numbers. \<open>str_of\<close> writes an ASCII literal of the source.
\<close>

type_synonym ustr = "nat list"

definition str_of :: "string \<Rightarrow> ustr" where
  "str_of s = map of_char s"

text \<open>\<open>str.isspace\<close> for one character: the code points Python counts as whitespace.\<close>

definition py_isspace :: "nat \<Rightarrow> bool" where
  "py_isspace c \<longleftrightarrow>
     (9 \<le> c \<and> c \<le> 13) \<or> (28 \<le> c \<and> c \<le> 32) \<or> c = 0x85 \<or> c = 0xA0 \<or> c = 0x1680 \<or>
     (0x2000 \<le> c \<and> c \<le> 0x200A) \<or> c = 0x2028 \<or> c = 0x2029 \<or> c = 0x202F \<or>
     c = 0x205F \<or> c = 0x3000"

text \<open>\<open>str.strip()\<close>: whitespace is dropped at both ends.\<close>

definition py_strip :: "ustr \<Rightarrow> ustr" where
  "py_strip s = rev (dropWhile py_isspace (rev (dropWhile py_isspace s)))"

text \<open>
  \<open>str.lower()\<close>, character by character, for the Basic Latin, Latin-1 Supplement,
  Cyrillic and Cyrillic Supplement blocks (the alphabets of the configuration and of the
  utterances); a code point of another block is left as it is.
\<close>

definition lower_cp :: "nat \<Rightarrow> nat" where
  "lower_cp c =
     (if 0x41 \<le> c \<and> c \<le> 0x5A then c + 32
      else if 0xC0 \<le> c \<and> c \<le> 0xDE \<and> c \<noteq> 0xD7 then c + 32
      else if 0x400 \<le> c \<and> c \<le> 0x40F then c + 80
      else if 0x410 \<le> c \<and> c \<le> 0x42F then c + 32
      else if ((0x460 \<le> c \<and> c \<le> 0x481) \<or> (0x48A \<le> c \<and> c \<le> 0x4BF) \<or>
               (0x4D0 \<le> c \<and> c \<le> 0x52F)) \<and> even c then c + 1
      else if c = 0x4C0 then 0x4CF
      else if 0x4C1 \<le> c \<and> c \<le> 0x4CD \<and> odd c then c + 1
      else c)"

definition py_lower :: "ustr \<Rightarrow> ustr" where
  "py_lower s = map lower_cp s"

text \<open>\<open>n in t\<close> on strings: \<open>n\<close> occurs in \<open>t\<close> as a contiguous run.\<close>

definition starts_with :: "ustr \<Rightarrow> ustr \<Rightarrow> bool" where
  "starts_with l s \<longleftrightarrow> take (length l) s = l"

fun py_in :: "ustr \<Rightarrow> ustr \<Rightarrow> bool" where
  "py_in n [] = (n = [])"
| "py_in n (x # xs) = (starts_with n (x # xs) \<or> py_in n xs)"

section \<open>The regular expressions of \<open>resolve\<close>\<close>

text \<open>
  The first code point of each run of ten decimal digits (category Nd); \<open>\D\<close> in a
  \<open>str\<close> pattern is any character outside these runs.
\<close>

definition nd_starts :: "nat list" where
  "nd_starts = [48, 1632, 1776, 1984, 2406, 2534, 2662, 2790, 2918, 3046, 3174, 3302, 3430,
     3558, 3664, 3792, 3872, 4160, 4240, 6112, 6160, 6470, 6608, 6784, 6800, 6992, 7088, 7232,
     7248, 42528, 43216, 43264, 43472, 43504, 43600, 44016, 65296, 66720, 68912, 69734, 69872,
     69942, 70096, 70384, 70736, 70864, 71248, 71360, 71472, 71904, 72016, 72784, 73040, 73120,
     92768, 92864, 93008, 120782, 120792, 120802, 120812, 120822, 123200, 123632, 125264,
     130032]"

definition py_isdecimal :: "nat \<Rightarrow> bool" where
  "py_isdecimal c \<longleftrightarrow> list_ex (\<lambda>s. s \<le> c \<and> c \<le> s + 9) nd_starts"

datatype cls =
    OneOf "nat list"
  | Range nat nat
  | Space
  | NonDigit

fun in_cls :: "cls \<Rightarrow> nat \<Rightarrow> bool" where
  "in_cls (OneOf cs) c = (c \<in> set cs)"
| "in_cls (Range a b) c = (a \<le> c \<and> c \<le> b)"
| "in_cls Space c = py_isspace c"
| "in_cls NonDigit c = (\<not> py_isdecimal c)"

text \<open>
  The pattern language the two expressions need: a character class, a literal, sequence,
  alternative, \<open>?\<close>, \<open>*\<close> on a class, and the anchors \<open>^\<close> and \<open>$\<close>.
\<close>

datatype rx =
    Cls cls
  | Lit ustr
  | Seq rx rx
  | Alt rx rx
  | Opt rx
  | Star cls
  | Bol
  | Eol

text \<open>Every rest of \<open>s\<close> that \<open>c*\<close> can leave: zero or more characters of the class taken.\<close>

fun star_rests :: "cls \<Rightarrow> ustr \<Rightarrow> ustr list" where
  "star_rests c [] = [[]]"
| "star_rests c (x # xs) = (x # xs) # (if in_cls c x then star_rests c xs else [])"

text \<open>
  A matcher by list of successes. A state is the text still to read, with a flag that
  says whether it is the whole text (the position \<open>^\<close> accepts). \<open>rx_run r st\<close> lists
  the states in which a match of \<open>r\<close> begun in \<open>st\<close> can end: the backtracking search of
  \<open>re\<close> finds a match exactly when this list is not empty. \<open>$\<close> accepts the end of the
  text and the position before a final newline.
\<close>

fun rx_run :: "rx \<Rightarrow> bool \<times> ustr \<Rightarrow> (bool \<times> ustr) list" where
  "rx_run (Cls c) (b, s) =
     (case s of [] \<Rightarrow> [] | x # xs \<Rightarrow> if in_cls c x then [(False, xs)] else [])"
| "rx_run (Lit l) (b, s) =
     (if starts_with l s then [(b \<and> l = [], drop (length l) s)] else [])"
| "rx_run (Seq r1 r2) st = concat (map (rx_run r2) (rx_run r1 st))"
| "rx_run (Alt r1 r2) st = rx_run r1 st @ rx_run r2 st"
| "rx_run (Opt r) st = rx_run r st @ [st]"
| "rx_run (Star c) (b, s) = map (\<lambda>r. (b \<and> length r = length s, r)) (star_rests c s)"
| "rx_run Bol (b, s) = (if b then [(b, s)] else [])"
| "rx_run Eol (b, s) = (if s = [] \<or> s = [10] then [(b, s)] else [])"

text \<open>
  \<open>re.search\<close>: the leftmost position at which the pattern matches, given as the text
  from that position on.
\<close>

fun search_from :: "rx \<Rightarrow> bool \<Rightarrow> ustr \<Rightarrow> ustr option" where
  "search_from r b [] = (if rx_run r (b, []) \<noteq> [] then Some [] else None)"
| "search_from r b (x # xs) =
     (if rx_run r (b, x # xs) \<noteq> [] then Some (x # xs) else search_from r False xs)"

definition re_search :: "rx \<Rightarrow> ustr \<Rightarrow> ustr option" where
  "re_search r t = search_from r True t"

section \<open>Places and the location store\<close>

record place =
  key :: ustr
  title :: ustr
  query :: ustr
  aliases :: "ustr list"
  url :: "ustr option"

text \<open>
  The state of a \<open>LocationStore\<close>: the list \<open>_places\<close> and the dictionary
  \<open>_alias_to_key\<close>. The file behind \<open>file_path\<close> is the argument of \<open>load\<close>.
\<close>

record LocationStore =
  places :: "place list"
  alias_to_key :: "ustr \<rightharpoonup> ustr"


definition get_by_key :: "LocationStore \<Rightarrow> ustr \<Rightarrow> place option" where
  "get_by_key st k = find (\<lambda>p. key p = k) (places st)"

section \<open>\<open>resolve\<close>\<close>

text \<open>
  The non-ASCII literals of \<open>resolve\<close>, code point by code point as the source file
  holds them. The file stores each Cyrillic word as the characters that the bytes of
  its UTF-8 form denote in Mac OS Roman (\<open>U+2014 U+00C4\<close> where the word has the letter
  er, and so on), and these characters are what Python reads.
\<close>

definition lit_dotuur :: ustr where
  "lit_dotuur = [0x2013, 0xA5, 0x2013, 0xE6, 0x2014, 0xC7, 0x2014, 0xC9, 0x2014, 0xC9,
     0x2014, 0xC4]"

definition lit_r :: ustr where
  "lit_r = [0x2014, 0xC4]"

definition lit_dugaar :: ustr where
  "lit_dugaar = [0x2013, 0xA5, 0x2014, 0xC9, 0x2013, 0x2265, 0x2013, 0x221E, 0x2013, 0x221E,
     0x2014, 0xC4]"

definition lit_bair :: ustr where
  "lit_bair = [0x2013, 0xB1, 0x2013, 0x221E, 0x2013, 0x3C0, 0x2014, 0xC4]"

definition lit_muis :: ustr where
  "lit_muis = [0x2013, 0xBA, 0x2014, 0xC9, 0x2013, 0x220F, 0x2014, 0xC5]"

text \<open>Line 93: \<open>(^|\D)n(\D|$)\<close> for the digit \<open>n\<close>.\<close>

definition dorm_rx :: "ustr \<Rightarrow> rx" where
  "dorm_rx n = Seq (Alt Bol (Cls NonDigit)) (Seq (Lit n) (Alt (Cls NonDigit) Eol))"

text \<open>
  Line 97: \<open>([1-5])\s*[-...]?\s*(r|r\.|dugaar)?\s*bair\<close>, a pattern in the characters
  of the class after the first \<open>\s*\<close> and in the three words. In the source file the
  words are the literals above, and the class holds the hyphen and the three characters
  \<open>U+201A U+00C4 U+00EC\<close>.
\<close>

definition building_pattern :: "nat list \<Rightarrow> ustr \<Rightarrow> ustr \<Rightarrow> ustr \<Rightarrow> rx" where
  "building_pattern dashes r dugaar bair =
     Seq (Cls (Range 0x31 0x35))
      (Seq (Star Space)
        (Seq (Opt (Cls (OneOf dashes)))
          (Seq (Star Space)
            (Seq (Opt (Alt (Lit r) (Alt (Lit (r @ str_of ''.'')) (Lit dugaar))))
              (Seq (Star Space) (Lit bair))))))"

definition building_rx :: rx where
  "building_rx = building_pattern [0x2D, 0x201A, 0xC4, 0xEC] lit_r lit_dugaar lit_bair"

definition has_dorm_keyword :: "ustr \<Rightarrow> bool" where
  "has_dorm_keyword t \<longleftrightarrow>
     py_in lit_dotuur t \<or> py_in (str_of ''dorm'') t \<or> py_in (str_of ''dormitory'') t"

definition dorm_digits :: "ustr list" where
  "dorm_digits = map str_of [''1'', ''2'', ''3'', ''4'', ''5'', ''6'']"

text \<open>
  The loop of lines 92 to 94, as the digit at which it returns; \<open>None\<close> when it runs to
  its end.
\<close>

fun dorm_loop :: "ustr \<Rightarrow> ustr list \<Rightarrow> ustr option" where
  "dorm_loop t [] = None"
| "dorm_loop t (n # ns) =
     (if re_search (dorm_rx n) t \<noteq> None \<or> py_in n t then Some n else dorm_loop t ns)"

text \<open>Lines 96 to 106. Group 1 of a match is its first character.\<close>

definition resolve_tail :: "LocationStore \<Rightarrow> ustr \<Rightarrow> place option" where
  "resolve_tail st t =
     (case re_search building_rx t of
        Some m \<Rightarrow> get_by_key st (str_of ''num_building_'' @ take 1 m)
      | None \<Rightarrow>
          if py_in lit_muis t \<or> py_in (str_of ''muis'') t \<or> py_in (str_of ''num'') t
          then get_by_key st (str_of ''num_main'')
          else None)"

text \<open>
  \<open>resolve\<close>. The argument is a \<open>str\<close>, so \<open>text or ""\<close> is the argument itself; \<open>if k\<close>
  holds for a key that was found and is not the empty string.
\<close>

definition resolve :: "LocationStore \<Rightarrow> ustr \<Rightarrow> place option" where
  "resolve st text =
     (let t = py_lower (py_strip text) in
      if t = [] then None
      else
        (case alias_to_key st t of
           Some k \<Rightarrow>
             if k \<noteq> [] then get_by_key st k
             else if has_dorm_keyword t then
               (case dorm_loop t dorm_digits of
                  Some n \<Rightarrow> get_by_key st (str_of ''num_dorm_'' @ n)
                | None \<Rightarrow> resolve_tail st t)
             else resolve_tail st t
         | None \<Rightarrow>
             if has_dorm_keyword t then
               (case dorm_loop t dorm_digits of
                  Some n \<Rightarrow> get_by_key st (str_of ''num_dorm_'' @ n)
                | None \<Rightarrow> resolve_tail st t)
             else resolve_tail st t))"

section \<open>The configuration document\<close>

text \<open>
  What \<open>yaml.safe_load\<close> returns: \<open>None\<close>, a \<open>bool\<close>, an \<open>int\<close>, a \<open>str\<close>, a \<open>list\<close> or a
  \<open>dict\<close>, the items of a \<open>dict\<close> in insertion order with distinct keys. Floats and
  timestamps are left out.
\<close>

datatype yaml =
    YNone
  | YBool bool
  | YInt int
  | YStr ustr
  | YList "yaml list"
  | YDict "(yaml \<times> yaml) list"

datatype py_error = AttributeError | TypeError | ReadError | UnicodeEncodeError

text \<open>The truth value of an object, as \<open>or\<close> and \<open>if\<close> take it.\<close>

fun py_truthy :: "yaml \<Rightarrow> bool" where
  "py_truthy YNone = False"
| "py_truthy (YBool b) = b"
| "py_truthy (YInt i) = (i \<noteq> 0)"
| "py_truthy (YStr s) = (s \<noteq> [])"
| "py_truthy (YList xs) = (xs \<noteq> [])"
| "py_truthy (YDict kvs) = (kvs \<noteq> [])"

text \<open>\<open>d.get(k, dflt)\<close>: only a \<open>dict\<close> has the method.\<close>

definition dict_get :: "yaml \<Rightarrow> ustr \<Rightarrow> yaml \<Rightarrow> py_error + yaml" where
  "dict_get d k dflt =
     (case d of
        YDict kvs \<Rightarrow> Inr (case map_of kvs (YStr k) of Some v \<Rightarrow> v | None \<Rightarrow> dflt)
      | _ \<Rightarrow> Inl AttributeError)"

text \<open>
  What a \<open>for\<close> loop runs through: the elements of a list, the keys of a dict, the
  characters of a string; the other objects are not iterable.
\<close>

definition py_iter :: "yaml \<Rightarrow> py_error + yaml list" where
  "py_iter v =
     (case v of
        YList xs \<Rightarrow> Inr xs
      | YDict kvs \<Rightarrow> Inr (map fst kvs)
      | YStr s \<Rightarrow> Inr (map (\<lambda>c. YStr [c]) s)
      | _ \<Rightarrow> Inl TypeError)"

text \<open>\<open>str\<close> of an integer.\<close>

fun digits_of :: "nat \<Rightarrow> ustr" where
  "digits_of n = (if n < 10 then [48 + n] else digits_of (n div 10) @ [48 + n mod 10])"

declare digits_of.simps [simp del]

definition str_int :: "int \<Rightarrow> ustr" where
  "str_int i = (if i < 0 then 45 # digits_of (nat (- i)) else digits_of (nat i))"

text \<open>
  \<open>repr\<close> of a string: double quotes when the string has a single quote and no double
  quote, single quotes otherwise; backslash, the quote, newline, return and tab are
  escaped, and a control character is written \<open>\xNN\<close>. Python also escapes the
  unprintable characters beyond Latin-1, which this leaves as they are.
\<close>

definition hex_digit :: "nat \<Rightarrow> nat" where
  "hex_digit d = (if d < 10 then 48 + d else 87 + d)"

definition repr_char :: "nat \<Rightarrow> nat \<Rightarrow> ustr" where
  "repr_char q c =
     (if c = 92 then [92, 92]
      else if c = q then [92, q]
      else if c = 10 then [92, 110]
      else if c = 13 then [92, 114]
      else if c = 9 then [92, 116]
      else if c < 32 \<or> (127 \<le> c \<and> c \<le> 160) \<or> c = 173
        then [92, 120, hex_digit (c div 16), hex_digit (c mod 16)]
      else [c])"

definition repr_str :: "ustr \<Rightarrow> ustr" where
  "repr_str s =
     (let q = (if 39 \<in> set s \<and> 34 \<notin> set s then 34 else 39)
      in q # concat (map (repr_char q) s) @ [q])"

text \<open>\<open>", ".join\<close>.\<close>

fun join_comma :: "ustr list \<Rightarrow> ustr" where
  "join_comma [] = []"
| "join_comma [x] = x"
| "join_comma (x # y # ys) = x @ str_of '', '' @ join_comma (y # ys)"

fun py_repr :: "yaml \<Rightarrow> ustr" where
  "py_repr YNone = str_of ''None''"
| "py_repr (YBool b) = (if b then str_of ''True'' else str_of ''False'')"
| "py_repr (YInt i) = str_int i"
| "py_repr (YStr s) = repr_str s"
| "py_repr (YList xs) = str_of ''['' @ join_comma (map py_repr xs) @ str_of '']''"
| "py_repr (YDict kvs) =
     str_of ''{'' @ join_comma (map (\<lambda>(k, v). py_repr k @ str_of '': '' @ py_repr v) kvs)
       @ str_of ''}''"

text \<open>\<open>str(v)\<close>: a string is itself, any other object is its \<open>repr\<close>.\<close>

definition py_str :: "yaml \<Rightarrow> ustr" where
  "py_str v = (case v of YStr s \<Rightarrow> s | _ \<Rightarrow> py_repr v)"

section \<open>\<open>load\<close>\<close>

text \<open>
  The file behind \<open>file_path\<close>: absent, one that \<open>open\<close> or \<open>yaml.safe_load\<close> rejects
  with an exception, or a document.
\<close>

datatype config_file = NoFile | Unreadable | Doc yaml

definition empty_store :: LocationStore where
  "empty_store = \<lparr>places = [], alias_to_key = Map.empty\<rparr>"

text \<open>
  The loop of lines 63 to 67 over the aliases of one entry, on the list
  \<open>aliases_clean\<close> and the dictionary \<open>_alias_to_key\<close>.
\<close>

fun alias_loop :: "ustr \<Rightarrow> yaml list \<Rightarrow> ustr list \<times> (ustr \<rightharpoonup> ustr) \<Rightarrow> ustr list \<times> (ustr \<rightharpoonup> ustr)" where
  "alias_loop k [] acc = acc"
| "alias_loop k (a # as) (clean, tbl) =
     (let a2 = py_lower (py_strip (py_str a))
      in if a2 \<noteq> [] then alias_loop k as (clean @ [a2], tbl(a2 \<mapsto> k))
         else alias_loop k as (clean, tbl))"

text \<open>\<open>item.get(name, dflt)\<close> on the items of a dict.\<close>

definition item_get :: "(yaml \<times> yaml) list \<Rightarrow> ustr \<Rightarrow> yaml \<Rightarrow> yaml" where
  "item_get kvs name dflt = (case map_of kvs (YStr name) of Some v \<Rightarrow> v | None \<Rightarrow> dflt)"

text \<open>
  The body of the loop of line 52 for one entry (lines 53 to 72). An entry that is not
  a dict has no \<open>get\<close>; aliases that are true and not iterable stop the loop of line 63
  with a \<open>TypeError\<close>.
\<close>

definition load_item :: "LocationStore \<Rightarrow> yaml \<Rightarrow> py_error + LocationStore" where
  "load_item st item =
     (case item of
        YDict kvs \<Rightarrow>
          (let k = py_strip (py_str (item_get kvs (str_of ''key'') (YStr [])));
               ttl = py_strip (py_str (item_get kvs (str_of ''title'') (YStr [])));
               q = py_strip (py_str (item_get kvs (str_of ''query'') (YStr [])));
               u = py_strip (py_str (item_get kvs (str_of ''url'') (YStr [])));
               al = item_get kvs (str_of ''aliases'') YNone
           in if \<not> (k \<noteq> [] \<and> ttl \<noteq> [] \<and> q \<noteq> []) then Inr st
              else
                (case py_iter (if py_truthy al then al else YList []) of
                   Inl e \<Rightarrow> Inl e
                 | Inr as \<Rightarrow>
                     (case alias_loop k as ([], alias_to_key st) of
                        (clean, tbl) \<Rightarrow>
                          Inr \<lparr>places = places st @
                                 [\<lparr>key = k, title = ttl, query = q, aliases = clean,
                                   url = (if u \<noteq> [] then Some u else None)\<rparr>],
                               alias_to_key = tbl(py_lower ttl \<mapsto> k)\<rparr>)))
      | _ \<Rightarrow> Inl AttributeError)"

fun load_items :: "LocationStore \<Rightarrow> yaml list \<Rightarrow> py_error + LocationStore" where
  "load_items st [] = Inr st"
| "load_items st (item # items) =
     (case load_item st item of Inl e \<Rightarrow> Inl e | Inr st' \<Rightarrow> load_items st' items)"

text \<open>
  \<open>load\<close> (lines 42 to 72): the store is emptied first, so the result depends on the
  file alone. An exception leaves \<open>load\<close> and is the result \<open>Inl\<close>.
\<close>

definition load :: "config_file \<Rightarrow> py_error + LocationStore" where
  "load f =
     (case f of
        NoFile \<Rightarrow> Inr empty_store
      | Unreadable \<Rightarrow> Inl ReadError
      | Doc d \<Rightarrow>
          (case dict_get (if py_truthy d then d else YDict []) (str_of ''places'') YNone of
             Inl e \<Rightarrow> Inl e
           | Inr v \<Rightarrow>
               (case py_iter (if py_truthy v then v else YList []) of
                  Inl e \<Rightarrow> Inl e
                | Inr items \<Rightarrow> load_items empty_store items)))"

section \<open>The map link\<close>








section \<open>The action\<close>














section \<open>An example configuration\<close>

definition entry :: "string \<Rightarrow> string \<Rightarrow> string \<Rightarrow> yaml list \<Rightarrow> (yaml \<times> yaml) list" where
  "entry k t q as =
     [(YStr (str_of ''key''), YStr (str_of k)), (YStr (str_of ''title''), YStr (str_of t)),
      (YStr (str_of ''query''), YStr (str_of q)), (YStr (str_of ''aliases''), YList as)]"

definition example_config :: config_file where
  "example_config =
     Doc (YDict [(YStr (str_of ''places''), YList
       [YDict (entry ''num_main'' ''NUM Main'' ''National University of Mongolia''
                 [YStr (str_of '' Main Campus ''), YStr (str_of ''D4'')]
               @ [(YStr (str_of ''url''), YStr (str_of ''https://maps.app.goo.gl/x''))]),
        YDict (entry ''num_dorm_1'' ''Dorm 1'' ''NUM dormitory 1'' []),
        YDict (entry '''' ''Nowhere'' ''nothing'' [YStr (str_of ''void'')]),
        YDict (entry ''num_dorm_4'' ''Dorm 4'' ''NUM dormitory 4'' [YStr (str_of ''d4''), YInt 4]),
        YDict (entry ''num_building_2'' ''Building 2'' ''NUM building 2'' [])])])"

definition example_store :: LocationStore where
  "example_store =
     \<lparr>places =
        [\<lparr>key = str_of ''num_main'', title = str_of ''NUM Main'',
          query = str_of ''National University of Mongolia'',
          aliases = [str_of ''main campus'', str_of ''d4''],
          url = Some (str_of ''https://maps.app.goo.gl/x'')\<rparr>,
         \<lparr>key = str_of ''num_dorm_1'', title = str_of ''Dorm 1'',
          query = str_of ''NUM dormitory 1'', aliases = [], url = None\<rparr>,
         \<lparr>key = str_of ''num_dorm_4'', title = str_of ''Dorm 4'',
          query = str_of ''NUM dormitory 4'', aliases = [str_of ''d4'', str_of ''4''],
          url = None\<rparr>,
         \<lparr>key = str_of ''num_building_2'', title = str_of ''Building 2'',
          query = str_of ''NUM building 2'', aliases = [], url = None\<rparr>],
      alias_to_key =
        [str_of ''main campus'' \<mapsto> str_of ''num_main'',
         str_of ''d4'' \<mapsto> str_of ''num_main'',
         str_of ''num main'' \<mapsto> str_of ''num_main'',
         str_of ''dorm 1'' \<mapsto> str_of ''num_dorm_1'',
         str_of ''d4'' \<mapsto> str_of ''num_dorm_4'',
         str_of ''4'' \<mapsto> str_of ''num_dorm_4'',
         str_of ''dorm 4'' \<mapsto> str_of ''num_dorm_4'',
         str_of ''building 2'' \<mapsto> str_of ''num_building_2'']\<rparr>"


section \<open>The alias table as a function of the place list\<close>

text \<open>
  The strings that \<open>load\<close> enters for a place: its cleaned aliases and its title in
  lower case. \<open>register\<close> enters them under the key of the place, \<open>table_of\<close> does so
  for a list of places from the first to the last.
\<close>

definition registers :: "place \<Rightarrow> ustr \<Rightarrow> bool" where
  "registers p a \<longleftrightarrow> a \<in> set (aliases p) \<or> a = py_lower (title p)"

definition register :: "place \<Rightarrow> (ustr \<rightharpoonup> ustr) \<Rightarrow> (ustr \<rightharpoonup> ustr)" where
  "register p m = (fold (\<lambda>a m. m(a \<mapsto> key p)) (aliases p) m)(py_lower (title p) \<mapsto> key p)"

definition table_of :: "place list \<Rightarrow> (ustr \<rightharpoonup> ustr)" where
  "table_of ps = foldl (\<lambda>m p. register p m) Map.empty ps"

text \<open>What line 64 keeps of a list of aliases.\<close>

definition cleaned :: "yaml list \<Rightarrow> ustr list" where
  "cleaned as = filter (\<lambda>a. a \<noteq> []) (map (\<lambda>a. py_lower (py_strip (py_str a))) as)"

text \<open>
  A place as \<open>load\<close> builds it: key, title and query are not empty, the link is absent
  or not empty, the title is trimmed, and the aliases are not empty, trimmed and in
  lower case.
\<close>

definition well_formed :: "place \<Rightarrow> bool" where
  "well_formed p \<longleftrightarrow>
     key p \<noteq> [] \<and> title p \<noteq> [] \<and> query p \<noteq> [] \<and> url p \<noteq> Some [] \<and>
     py_strip (title p) = title p \<and>
     (\<forall>a \<in> set (aliases p). a \<noteq> [] \<and> py_lower (py_strip a) = a)"

section \<open>The cascade of strategies\<close>



text \<open>A digit matches bounded by characters that are not digits, or as a bare substring.\<close>

definition digit_matches :: "ustr \<Rightarrow> ustr \<Rightarrow> bool" where
  "digit_matches n t \<longleftrightarrow> re_search (dorm_rx n) t \<noteq> None \<or> py_in n t"






section \<open>The entries of a configuration\<close>



section \<open>Characters a pattern cannot match without\<close>

fun needs :: "rx \<Rightarrow> nat \<Rightarrow> bool" where
  "needs (Lit l) c = (c \<in> set l)"
| "needs (Seq r1 r2) c = (needs r1 c \<or> needs r2 c)"
| "needs (Alt r1 r2) c = (needs r1 c \<and> needs r2 c)"
| "needs r c = False"

section \<open>Facts about the string operations\<close>

lemma lower_cp_low:
  "c < 0x400 \<Longrightarrow>
     lower_cp c = (if (0x41 \<le> c \<and> c \<le> 0x5A) \<or> (0xC0 \<le> c \<and> c \<le> 0xDE \<and> c \<noteq> 0xD7)
                   then c + 32 else c)"
  by (simp add: lower_cp_def)

lemma lower_cp_high: "0x400 \<le> c \<Longrightarrow> 0x400 \<le> lower_cp c"
  by (simp add: lower_cp_def)

lemma lower_cp_high_eq:
  "0x400 \<le> c \<Longrightarrow>
     lower_cp c =
       (if c \<le> 0x40F then c + 80
        else if c \<le> 0x42F then c + 32
        else if ((0x460 \<le> c \<and> c \<le> 0x481) \<or> (0x48A \<le> c \<and> c \<le> 0x4BF) \<or>
                 (0x4D0 \<le> c \<and> c \<le> 0x52F)) \<and> even c then c + 1
        else if c = 0x4C0 then 0x4CF
        else if 0x4C1 \<le> c \<and> c \<le> 0x4CD \<and> odd c then c + 1
        else c)"
  by (simp add: lower_cp_def)

lemma lower_cp_idem: "lower_cp (lower_cp c) = lower_cp c"
proof (cases "c < 0x400")
  case True
  then have "lower_cp c < 0x400" by (simp add: lower_cp_low)
  then show ?thesis using True by (simp add: lower_cp_low)
next
  case False
  then have h: "0x400 \<le> c" by simp
  then have h': "0x400 \<le> lower_cp c" by (rule lower_cp_high)
  show ?thesis
    unfolding lower_cp_high_eq [OF h'] unfolding lower_cp_high_eq [OF h]
    using h by (auto split: if_splits)
qed

lemma cyrillic_not_space: "0x400 \<le> x \<Longrightarrow> x \<le> 0x57F \<Longrightarrow> \<not> py_isspace x"
  by (simp add: py_isspace_def)

lemma isspace_lower_cp: "py_isspace (lower_cp c) = py_isspace c"
proof (cases "c < 0x400")
  case True
  then show ?thesis by (auto simp add: lower_cp_low py_isspace_def)
next
  case False
  then have h: "0x400 \<le> c" by simp
  have "lower_cp c = c \<or> (c \<le> 0x52F \<and> lower_cp c \<le> 0x57F)"
    using h by (simp add: lower_cp_high_eq)
  then show ?thesis
  proof
    assume "lower_cp c = c"
    then show ?thesis by simp
  next
    assume a: "c \<le> 0x52F \<and> lower_cp c \<le> 0x57F"
    have "\<not> py_isspace c" using h a by (simp add: cyrillic_not_space)
    moreover have "\<not> py_isspace (lower_cp c)"
      using lower_cp_high [OF h] a by (simp add: cyrillic_not_space)
    ultimately show ?thesis by simp
  qed
qed

lemma lower_cp_not_upper:
  "lower_cp c \<noteq> 0xC4 \<and> lower_cp c \<noteq> 0xC5 \<and> lower_cp c \<noteq> 0xC7 \<and> lower_cp c \<noteq> 0xC9"
proof (cases "c < 0x400")
  case True
  then show ?thesis by (auto simp add: lower_cp_low)
next
  case False
  then have "0x400 \<le> lower_cp c" by (simp add: lower_cp_high)
  then show ?thesis by simp
qed

lemma rstrip_keeps_head:
  assumes "dropWhile P xs = xs"
  shows "dropWhile P (rev (dropWhile P (rev xs))) = rev (dropWhile P (rev xs))"
proof (cases xs)
  case Nil
  then show ?thesis by simp
next
  case (Cons x ys)
  from assms have "xs = [] \<or> \<not> P (hd xs)" by (simp only: dropWhile_eq_self_iff)
  with Cons have nx: "\<not> P x" by simp
  have "\<exists>zs. dropWhile P (rev ys @ [x]) = zs @ [x]"
    using nx by (cases "\<forall>y\<in>set (rev ys). P y") (auto simp: dropWhile_append)
  then obtain zs where "dropWhile P (rev xs) = zs @ [x]" using Cons by auto
  then show ?thesis using nx by simp
qed

lemma strip_idem: "py_strip (py_strip s) = py_strip s"
  unfolding py_strip_def
  by (simp add: rstrip_keeps_head)

lemma strip_lower: "py_strip (py_lower s) = py_lower (py_strip s)"
  unfolding py_strip_def py_lower_def
  by (simp add: dropWhile_map rev_map comp_def isspace_lower_cp)

lemma lower_idem: "py_lower (py_lower s) = py_lower s"
  by (simp add: py_lower_def lower_cp_idem)

lemma norm_idem: "py_lower (py_strip (py_lower (py_strip s))) = py_lower (py_strip s)"
  by (simp add: strip_lower lower_idem strip_idem)

lemma lower_Nil_iff: "py_lower s = [] \<longleftrightarrow> s = []"
  by (simp add: py_lower_def)

section \<open>Evaluation on the example\<close>

lemmas eval_strings = str_of_def py_lower_def py_strip_def py_isspace_def lower_cp_def
  starts_with_def Let_def

lemmas eval_load = load_def load_item_def item_get_def dict_get_def py_iter_def py_str_def
  empty_store_def str_int_def digits_of.simps eval_strings

lemmas eval_resolve = resolve_def resolve_tail_def get_by_key_def has_dorm_keyword_def
  dorm_digits_def re_search_def dorm_rx_def building_rx_def building_pattern_def
  py_isdecimal_def nd_starts_def
  lit_dotuur_def lit_r_def lit_dugaar_def lit_bair_def lit_muis_def eval_strings

lemma load_example: "load example_config = Inr example_store"
  by (simp add: example_config_def example_store_def entry_def eval_load)

section \<open>Facts about \<open>load\<close>\<close>

lemma fold_upd_apply:
  "fold (\<lambda>a m. m(a \<mapsto> k)) as m x = (if x \<in> set as then Some k else m x)"
  by (induction as arbitrary: m) auto

lemma register_apply: "register p m a = (if registers p a then Some (key p) else m a)"
  by (simp add: register_def registers_def fold_upd_apply)

lemma table_of_snoc: "table_of (ps @ [p]) = register p (table_of ps)"
  by (simp add: table_of_def)

lemma table_of_Nil: "table_of [] = Map.empty"
  by (simp add: table_of_def)

lemma table_last_wins:
  "registers p a \<Longrightarrow> \<forall>y \<in> set ys. \<not> registers y a \<Longrightarrow> table_of (xs @ p # ys) a = Some (key p)"
proof (induction ys rule: rev_induct)
  case Nil
  then show ?case by (simp add: table_of_snoc register_apply)
next
  case (snoc y ys)
  have "table_of (xs @ p # ys @ [y]) = register y (table_of (xs @ p # ys))"
    using table_of_snoc [of "xs @ p # ys" y] by simp
  with snoc show ?case by (simp add: register_apply)
qed

lemma table_Some:
  "table_of ps a = Some k \<Longrightarrow> \<exists>p \<in> set ps. key p = k \<and> registers p a"
proof (induction ps rule: rev_induct)
  case Nil
  then show ?case by (simp add: table_of_Nil)
next
  case (snoc p ps)
  then show ?case
    by (cases "registers p a") (auto simp: table_of_snoc register_apply)
qed

lemma table_None: "\<forall>p \<in> set ps. \<not> registers p a \<Longrightarrow> table_of ps a = None"
  by (induction ps rule: rev_induct) (auto simp: table_of_Nil table_of_snoc register_apply)



lemma get_by_key_found:
  "p \<in> set (places st) \<Longrightarrow> \<exists>q. get_by_key st (key p) = Some q \<and> key q = key p"
  by (cases "get_by_key st (key p)") (auto simp: get_by_key_def find_None_iff dest: find_Some_iff [THEN iffD1])

lemma alias_loop_eq:
  "alias_loop k as (clean, tbl) =
     (clean @ cleaned as, fold (\<lambda>a m. m(a \<mapsto> k)) (cleaned as) tbl)"
  by (induction as arbitrary: clean tbl) (auto simp: cleaned_def Let_def)

lemma cleaned_normal: "a \<in> set (cleaned as) \<Longrightarrow> a \<noteq> [] \<and> py_lower (py_strip a) = a"
  by (auto simp: cleaned_def norm_idem)

lemma load_item_cases:
  assumes "load_item st item = Inr st'"
  shows "st' = st \<or>
    (\<exists>p. well_formed p \<and>
       st' = \<lparr>places = places st @ [p], alias_to_key = register p (alias_to_key st)\<rparr>)"
proof (cases item)
  case (YDict kvs)
  define k where "k = py_strip (py_str (item_get kvs (str_of ''key'') (YStr [])))"
  define ttl where "ttl = py_strip (py_str (item_get kvs (str_of ''title'') (YStr [])))"
  define q where "q = py_strip (py_str (item_get kvs (str_of ''query'') (YStr [])))"
  define u where "u = py_strip (py_str (item_get kvs (str_of ''url'') (YStr [])))"
  define al where "al = item_get kvs (str_of ''aliases'') YNone"
  show ?thesis
  proof (cases "k \<noteq> [] \<and> ttl \<noteq> [] \<and> q \<noteq> []")
    case False
    with assms YDict show ?thesis
      by (simp add: load_item_def k_def ttl_def q_def Let_def)
  next
    case True
    have "\<exists>as. py_iter (if py_truthy al then al else YList []) = Inr as \<and>
      st' = \<lparr>places = places st @
                 [\<lparr>key = k, title = ttl, query = q, aliases = cleaned as,
                   url = (if u \<noteq> [] then Some u else None)\<rparr>],
               alias_to_key = (fold (\<lambda>a m. m(a \<mapsto> k)) (cleaned as) (alias_to_key st))
                 (py_lower ttl \<mapsto> k)\<rparr>"
      using assms YDict True unfolding k_def ttl_def q_def u_def al_def
      by (auto simp add: load_item_def Let_def alias_loop_eq split: sum.splits)
    then obtain as where
      st': "st' = \<lparr>places = places st @
                 [\<lparr>key = k, title = ttl, query = q, aliases = cleaned as,
                   url = (if u \<noteq> [] then Some u else None)\<rparr>],
               alias_to_key = (fold (\<lambda>a m. m(a \<mapsto> k)) (cleaned as) (alias_to_key st))
                 (py_lower ttl \<mapsto> k)\<rparr>"
      by blast
    let ?p = "\<lparr>key = k, title = ttl, query = q, aliases = cleaned as,
                url = (if u \<noteq> [] then Some u else None)\<rparr>"
    have "well_formed ?p"
      using True by (auto simp add: well_formed_def ttl_def strip_idem dest: cleaned_normal)
    moreover have "st' = \<lparr>places = places st @ [?p], alias_to_key = register ?p (alias_to_key st)\<rparr>"
      by (simp add: st' register_def)
    ultimately show ?thesis by blast
  qed
qed (use assms in \<open>simp_all add: load_item_def\<close>)

lemma load_items_inv:
  "load_items st items = Inr st' \<Longrightarrow> alias_to_key st = table_of (places st) \<Longrightarrow>
   \<forall>p \<in> set (places st). well_formed p \<Longrightarrow>
   alias_to_key st' = table_of (places st') \<and> (\<forall>p \<in> set (places st'). well_formed p)"
proof (induction items arbitrary: st)
  case Nil
  then show ?case by simp
next
  case (Cons item items)
  from Cons.prems(1) obtain st1 where
    s1: "load_item st item = Inr st1" and s2: "load_items st1 items = Inr st'"
    by (auto split: sum.splits)
  from load_item_cases [OF s1] Cons.prems(2,3)
  have "alias_to_key st1 = table_of (places st1) \<and> (\<forall>p \<in> set (places st1). well_formed p)"
    by (auto simp: table_of_snoc)
  with Cons.IH [OF s2] show ?case by blast
qed

lemma load_entries:
  "load f = Inr st \<Longrightarrow> \<exists>items. load_items empty_store items = Inr st"
  by (cases f) (auto simp: load_def split: sum.splits intro: exI [of _ "[]"])

lemma load_inv:
  assumes "load f = Inr st"
  shows "alias_to_key st = table_of (places st)" and "\<forall>p \<in> set (places st). well_formed p"
proof -
  from load_entries [OF assms] obtain items where "load_items empty_store items = Inr st" ..
  from load_items_inv [OF this]
  have "alias_to_key st = table_of (places st) \<and> (\<forall>p \<in> set (places st). well_formed p)"
    by (simp add: empty_store_def table_of_Nil)
  then show "alias_to_key st = table_of (places st)" and "\<forall>p \<in> set (places st). well_formed p"
    by simp_all
qed

section \<open>Facts about the patterns\<close>

lemma starts_with_in: "starts_with n t \<Longrightarrow> py_in n t"
  by (cases t) (auto simp: starts_with_def)

lemma starts_with_set: "starts_with n t \<Longrightarrow> set n \<subseteq> set t"
  by (metis set_take_subset starts_with_def)

lemma py_in_set: "py_in n t \<Longrightarrow> set n \<subseteq> set t"
proof (induction t)
  case Nil
  then show ?case by simp
next
  case (Cons a t)
  from Cons.prems have "starts_with n (a # t) \<or> py_in n t" by simp
  then show ?case
  proof
    assume "starts_with n (a # t)"
    then show ?thesis by (rule starts_with_set)
  next
    assume "py_in n t"
    then have "set n \<subseteq> set t" by (rule Cons.IH)
    then show ?thesis by auto
  qed
qed

lemma star_rests_set: "r \<in> set (star_rests c s) \<Longrightarrow> set r \<subseteq> set s"
  by (induction s) (auto split: if_splits)

lemma rx_run_set: "(b', s') \<in> set (rx_run r (b, s)) \<Longrightarrow> set s' \<subseteq> set s"
proof (induction r arbitrary: b s b' s')
  case (Cls c)
  then show ?case by (cases s) (auto split: if_splits)
next
  case (Lit l)
  then show ?case by (auto split: if_splits dest: in_set_dropD)
next
  case (Seq r1 r2)
  then show ?case by fastforce
next
  case (Alt r1 r2)
  then show ?case by fastforce
next
  case (Opt r)
  then show ?case by fastforce
next
  case (Star c)
  then show ?case by (auto dest: star_rests_set)
qed (auto split: if_splits)

lemma needs_no_match: "needs r c \<Longrightarrow> c \<notin> set s \<Longrightarrow> rx_run r (b, s) = []"
proof (induction r arbitrary: b s)
  case (Lit l)
  then show ?case by (auto dest: starts_with_set)
next
  case (Seq r1 r2)
  show ?case
  proof (cases "needs r1 c")
    case True
    with Seq show ?thesis by simp
  next
    case False
    with Seq.prems have n2: "needs r2 c" by simp
    have "rx_run r2 st = []" if "st \<in> set (rx_run r1 (b, s))" for st
    proof -
      obtain b' s' where st: "st = (b', s')" by (cases st)
      with that rx_run_set have "set s' \<subseteq> set s" by blast
      with Seq.prems(2) have "c \<notin> set s'" by blast
      with Seq.IH(2) [OF n2] st show ?thesis by simp
    qed
    then show ?thesis by simp
  qed
qed auto

lemma needs_no_search: "needs r c \<Longrightarrow> c \<notin> set t \<Longrightarrow> search_from r b t = None"
  by (induction t arbitrary: b) (auto simp: needs_no_match)

lemma lower_no_upper: "0xC4 \<notin> set (py_lower s)"
  using lower_cp_not_upper by (auto simp: py_lower_def)

lemma building_needs: "needs building_rx 0xC4"
  by (simp add: building_rx_def building_pattern_def lit_bair_def)

lemma building_never: "re_search building_rx (py_lower s) = None"
  by (simp add: re_search_def needs_no_search [OF building_needs lower_no_upper])

lemma dotuur_never: "\<not> py_in lit_dotuur (py_lower s)"
proof
  assume "py_in lit_dotuur (py_lower s)"
  then have "set lit_dotuur \<subseteq> set (py_lower s)" by (rule py_in_set)
  then have "0xC4 \<in> set (py_lower s)" by (auto simp: lit_dotuur_def)
  with lower_no_upper show False by blast
qed

lemma dorm_rx_in:
  assumes "rx_run (dorm_rx n) (b, t) \<noteq> []"
  shows "py_in n t"
proof (cases t)
  case Nil
  with assms show ?thesis by (auto simp: dorm_rx_def starts_with_def split: if_splits)
next
  case (Cons x xs)
  with assms show ?thesis
    by (auto simp: dorm_rx_def starts_with_in split: if_splits list.splits)
qed

lemma search_dorm_in: "search_from (dorm_rx n) b t \<noteq> None \<Longrightarrow> py_in n t"
proof (induction t arbitrary: b)
  case Nil
  then show ?case using dorm_rx_in [of n b "[]"] by (auto split: if_splits)
next
  case (Cons x xs)
  show ?case
  proof (cases "rx_run (dorm_rx n) (b, x # xs) \<noteq> []")
    case True
    then show ?thesis by (rule dorm_rx_in)
  next
    case False
    with Cons.prems have "search_from (dorm_rx n) False xs \<noteq> None" by simp
    then have "py_in n xs" by (rule Cons.IH)
    then show ?thesis by simp
  qed
qed

lemma digit_matches_iff: "digit_matches n t \<longleftrightarrow> py_in n t"
  using search_dorm_in [of n True t] by (auto simp: digit_matches_def re_search_def)

lemma dorm_loop_find: "dorm_loop t ns = find (\<lambda>n. digit_matches n t) ns"
  by (induction ns) (auto simp: digit_matches_def)

section \<open>\<open>resolve\<close> and the cascade\<close>




section \<open>The resolver\<close>

text \<open>
  C9: \<open>resolve("")\<close> and \<open>resolve("   ")\<close> return none. The input is trimmed and put in
  lower case, and an input that is empty after trimming gives none at once, whatever
  the store holds: no strategy is consulted.
\<close>

theorem resolve_blank:
  "resolve st [] = None \<and> resolve st (str_of ''   '') = None \<and>
   (py_strip text = [] \<longrightarrow> resolve st text = None)"
proof -
  have "resolve st [] = None"
    by (simp add: resolve_def py_lower_def py_strip_def)
  moreover have "resolve st (str_of ''   '') = None"
    by (simp add: resolve_def py_lower_def py_strip_def py_isspace_def str_of_def)
  moreover have "py_strip text = [] \<longrightarrow> resolve st text = None"
    by (simp add: resolve_def py_lower_def)
  ultimately show ?thesis by blast
qed

theorem resolve_blank_witness:
  "py_strip [9, 32, 10] = [] \<and> resolve example_store [9, 32, 10] = None"
proof -
  have h: "py_strip [9, 32, 10] = []"
    by (simp add: py_strip_def py_isspace_def)
  with resolve_blank [of example_store "[9, 32, 10]"] show ?thesis by blast
qed


text \<open>
  C7: for the text \<open>2-r bair\<close> in Cyrillic letters (\<open>U+0440\<close> for er, \<open>U+0431 U+0430 U+0439
  U+0440\<close> for the word), \<open>resolve\<close> gives none on a store that defines
  \<open>num_building_2\<close>, and so it does for the same text spelt as the source file spells
  its literals: the keyword of the building pattern has the capital letter \<open>U+00C4\<close>,
  which no text in lower case contains.
\<close>

theorem resolve_building_2_none:
  "load example_config = Inr example_store \<and>
   map_option title (get_by_key example_store (str_of ''num_building_2''))
     = Some (str_of ''Building 2'') \<and>
   resolve example_store [0x32, 0x2D, 0x440, 0x20, 0x431, 0x430, 0x439, 0x440] = None \<and>
   resolve example_store ([0x32, 0x2D] @ lit_r @ [0x20] @ lit_bair) = None"
proof -
  have "map_option title (get_by_key example_store (str_of ''num_building_2''))
      = Some (str_of ''Building 2'')"
    by (simp add: example_store_def get_by_key_def str_of_def)
  moreover have
    "resolve example_store [0x32, 0x2D, 0x440, 0x20, 0x431, 0x430, 0x439, 0x440] = None"
    by (simp add: example_store_def eval_resolve)
  moreover have "resolve example_store ([0x32, 0x2D] @ lit_r @ [0x20] @ lit_bair) = None"
    by (simp add: example_store_def eval_resolve)
  ultimately show ?thesis using load_example by blast
qed

text \<open>
  The pattern of line 97 itself does what C7 says when its words are the Cyrillic ones
  (the class then holds the hyphen and the dash \<open>U+2013\<close>): in \<open>2-r bair\<close> it matches from
  the digit 2 on.
\<close>

lemma building_pattern_cyrillic:
  "re_search
     (building_pattern [0x2D, 0x2013] [0x440] [0x434, 0x443, 0x433, 0x430, 0x430, 0x440]
        [0x431, 0x430, 0x439, 0x440])
     [0x32, 0x2D, 0x440, 0x20, 0x431, 0x430, 0x439, 0x440]
   = Some [0x32, 0x2D, 0x440, 0x20, 0x431, 0x430, 0x439, 0x440]"
  by (simp add: re_search_def building_pattern_def eval_strings)

section \<open>The alias table after \<open>load\<close>\<close>

lemma registers_nonempty: "well_formed p \<Longrightarrow> registers p a \<Longrightarrow> a \<noteq> []"
  by (auto simp: well_formed_def registers_def py_lower_def)

text \<open>
  C10: after any \<open>load\<close>, every key that the alias table holds as a value is the key of
  a place of the place list, and every place of the list has a key, a title and a
  query; so whenever the alias lookup of \<open>resolve\<close> finds a key, \<open>resolve\<close> returns a
  place with that key, never none.
\<close>

theorem alias_keys_defined:
  assumes "load f = Inr st"
  shows "(\<forall>a k. alias_to_key st a = Some k \<longrightarrow> (\<exists>p \<in> set (places st). key p = k)) \<and>
         (\<forall>p \<in> set (places st). key p \<noteq> [] \<and> title p \<noteq> [] \<and> query p \<noteq> []) \<and>
         (\<forall>text k. alias_to_key st (py_lower (py_strip text)) = Some k \<longrightarrow>
            (\<exists>p. resolve st text = Some p \<and> key p = k))"
proof -
  note inv = load_inv [OF assms]
  have found: "\<exists>p \<in> set (places st). key p = k \<and> registers p a"
    if "alias_to_key st a = Some k" for a k
    using that inv(1) table_Some by simp
  have wf: "well_formed p" if "p \<in> set (places st)" for p
    using that inv(2) by blast
  have res: "\<exists>p. resolve st inp = Some p \<and> key p = k"
    if look: "alias_to_key st (py_lower (py_strip inp)) = Some k" for inp k
  proof -
    from found [OF look] obtain q where
      q: "q \<in> set (places st)" "key q = k" "registers q (py_lower (py_strip inp))"
      by blast
    from q(1) have wq: "well_formed q" by (rule wf)
    then have t: "py_lower (py_strip inp) \<noteq> []" using q(3) by (rule registers_nonempty)
    from wq q(2) have k: "k \<noteq> []" by (auto simp: well_formed_def)
    from t k look have "resolve st inp = get_by_key st k"
      by (simp add: resolve_def Let_def)
    with get_by_key_found [OF q(1)] q(2) show ?thesis by auto
  qed
  from found have "\<forall>a k. alias_to_key st a = Some k \<longrightarrow> (\<exists>p \<in> set (places st). key p = k)"
    by blast
  moreover from wf have "\<forall>p \<in> set (places st). key p \<noteq> [] \<and> title p \<noteq> [] \<and> query p \<noteq> []"
    by (auto simp: well_formed_def)
  moreover from res have "\<forall>text k. alias_to_key st (py_lower (py_strip text)) = Some k \<longrightarrow>
      (\<exists>p. resolve st text = Some p \<and> key p = k)"
    by blast
  ultimately show ?thesis by blast
qed

theorem alias_keys_defined_witness:
  "load example_config = Inr example_store \<and>
   alias_to_key example_store (py_lower (py_strip (str_of '' D4 ''))) = Some (str_of ''num_dorm_4'') \<and>
   (\<exists>p. resolve example_store (str_of '' D4 '') = Some p \<and> key p = str_of ''num_dorm_4'')"
proof -
  have look: "alias_to_key example_store (py_lower (py_strip (str_of '' D4 '')))
      = Some (str_of ''num_dorm_4'')"
    by (simp add: example_store_def eval_strings)
  with alias_keys_defined [OF load_example] load_example show ?thesis by blast
qed

text \<open>
  C5: when the same string, trimmed and in lower case, is entered by two entries of the
  configuration, the alias table maps it to the key of the later one: of the places
  that \<open>load\<close> kept, which stand in the place list in the order of their entries, the
  last one that enters the string gives the key.
\<close>

theorem last_entry_wins:
  assumes "load f = Inr st"
    and "places st = ws @ q # xs @ p # ys"
    and "registers q a" and "registers p a"
    and "\<forall>y \<in> set ys. \<not> registers y a"
  shows "alias_to_key st a = Some (key p)"
proof -
  have "table_of ((ws @ q # xs) @ p # ys) a = Some (key p)"
    using assms(4,5) by (rule table_last_wins)
  with load_inv(1) [OF assms(1)] assms(2) show ?thesis by simp
qed

theorem last_entry_wins_witness:
  "load example_config = Inr example_store \<and>
   registers (places example_store ! 0) (str_of ''d4'') \<and>
   registers (places example_store ! 2) (str_of ''d4'') \<and>
   key (places example_store ! 0) = str_of ''num_main'' \<and>
   alias_to_key example_store (str_of ''d4'') = Some (str_of ''num_dorm_4'')"
proof -
  let ?q = "places example_store ! 0" and ?p = "places example_store ! 2"
  have split: "places example_store =
      [] @ ?q # [places example_store ! 1] @ ?p # [places example_store ! 3]"
    by (simp add: example_store_def)
  have rq: "registers ?q (str_of ''d4'')"
    by (simp add: example_store_def registers_def str_of_def)
  have rp: "registers ?p (str_of ''d4'')"
    by (simp add: example_store_def registers_def str_of_def)
  have ry: "\<forall>y \<in> set [places example_store ! 3]. \<not> registers y (str_of ''d4'')"
    by (simp add: example_store_def registers_def eval_strings)
  have kq: "key ?q = str_of ''num_main''" "key ?p = str_of ''num_dorm_4''"
    by (simp_all add: example_store_def)
  from last_entry_wins [OF load_example split rq rp ry] kq rq rp load_example
  show ?thesis by simp
qed




section \<open>Configurations without places\<close>








text \<open>
  C1, as the code has it: for an absent file, for a document that is empty or otherwise
  false (null, an empty mapping, an empty sequence, an empty string, zero), and for a
  mapping in which \<open>places\<close> is missing or false, \<open>load\<close> ends without an error in the
  store with no place and no alias; for any other document that is not a mapping,
  \<open>load\<close> ends with an \<open>AttributeError\<close>.
\<close>

theorem load_nothing:
  "load NoFile = Inr empty_store \<and>
   (\<not> py_truthy d \<longrightarrow> load (Doc d) = Inr empty_store) \<and>
   ((case map_of kvs (YStr (str_of ''places'')) of None \<Rightarrow> True | Some v \<Rightarrow> \<not> py_truthy v) \<longrightarrow>
      load (Doc (YDict kvs)) = Inr empty_store) \<and>
   (py_truthy d \<and> (\<forall>items. d \<noteq> YDict items) \<longrightarrow> load (Doc d) = Inl AttributeError)"
proof -
  have "load NoFile = Inr empty_store" by (simp add: load_def)
  moreover have "\<not> py_truthy d \<longrightarrow> load (Doc d) = Inr empty_store"
    by (simp add: load_def dict_get_def py_iter_def)
  moreover have "(case map_of kvs (YStr (str_of ''places'')) of None \<Rightarrow> True
      | Some v \<Rightarrow> \<not> py_truthy v) \<longrightarrow> load (Doc (YDict kvs)) = Inr empty_store"
    by (cases "kvs = []") (auto simp: load_def dict_get_def py_iter_def split: option.splits)
  moreover have "py_truthy d \<and> (\<forall>items. d \<noteq> YDict items) \<longrightarrow>
      load (Doc d) = Inl AttributeError"
    by (cases d) (auto simp: load_def dict_get_def)
  ultimately show ?thesis by blast
qed

theorem load_nothing_witness:
  "\<not> py_truthy (YList []) \<and> load (Doc (YList [])) = Inr empty_store \<and>
   map_of [(YStr (str_of ''name''), YStr (str_of ''campus''))] (YStr (str_of ''places'')) = None \<and>
   load (Doc (YDict [(YStr (str_of ''name''), YStr (str_of ''campus''))])) = Inr empty_store \<and>
   places empty_store = [] \<and> alias_to_key empty_store = Map.empty \<and>
   py_truthy (YInt 7) \<and> load (Doc (YInt 7)) = Inl AttributeError"
proof -
  have a: "\<not> py_truthy (YList [])" by simp
  have b: "map_of [(YStr (str_of ''name''), YStr (str_of ''campus''))] (YStr (str_of ''places''))
      = None"
    by (simp add: str_of_def)
  have c: "py_truthy (YInt 7) \<and> (\<forall>items. YInt 7 \<noteq> YDict items)" by simp
  from load_nothing [of "YList []" "[(YStr (str_of ''name''), YStr (str_of ''campus''))]"]
    load_nothing [of "YInt 7" "[]"] a b c
  show ?thesis by (simp add: empty_store_def)
qed

text \<open>
  C1 as stated fails: a document that is a sequence, not a mapping, has no \<open>get\<close>, and
  \<open>load\<close> ends with an \<open>AttributeError\<close>.
\<close>

theorem load_sequence_raises:
  "load (Doc (YList [YStr (str_of ''campus'')])) = Inl AttributeError"
  by (simp add: load_def dict_get_def)

section \<open>The dormitory strategy\<close>

lemma py_in_nonempty: "py_in n t \<Longrightarrow> n \<noteq> [] \<Longrightarrow> t \<noteq> []"
  by (cases t) auto


lemma get_by_key_defined:
  "\<exists>p \<in> set (places st). key p = k \<Longrightarrow> \<exists>q. get_by_key st k = Some q \<and> key q = k"
  using get_by_key_found by blast

text \<open>
  C4, as the code has it: for a text that, trimmed and in lower case, is not an alias of
  the table, passes the keyword test of line 91, and contains the digit 4 and none of
  the digits 1, 2 and 3, \<open>resolve\<close> returns what \<open>_get_by_key\<close> gives for \<open>num_dorm_4\<close>,
  a place with that key when one is defined; the building pattern is not consulted.
\<close>

theorem dorm_four_first:
  assumes "t = py_lower (py_strip inp)"
    and "alias_to_key st t = None"
    and "has_dorm_keyword t"
    and "py_in (str_of ''4'') t"
    and "\<not> py_in (str_of ''1'') t" and "\<not> py_in (str_of ''2'') t" and "\<not> py_in (str_of ''3'') t"
  shows "resolve st inp = get_by_key st (str_of ''num_dorm_4'') \<and>
         ((\<exists>p \<in> set (places st). key p = str_of ''num_dorm_4'') \<longrightarrow>
          (\<exists>q. resolve st inp = Some q \<and> key q = str_of ''num_dorm_4''))"
proof -
  have ne: "t \<noteq> []"
    using assms(4) by (rule py_in_nonempty) (simp add: str_of_def)
  have "dorm_loop t dorm_digits = Some (str_of ''4'')"
    using assms(4-7) by (simp add: dorm_loop_find digit_matches_iff dorm_digits_def)
  with ne assms(1-3) have r: "resolve st inp = get_by_key st (str_of ''num_dorm_'' @ str_of ''4'')"
    by (simp add: resolve_def Let_def)
  have "str_of ''num_dorm_'' @ str_of ''4'' = str_of ''num_dorm_4''"
    by (simp add: str_of_def)
  with r have "resolve st inp = get_by_key st (str_of ''num_dorm_4'')" by simp
  then show ?thesis using get_by_key_defined [of st "str_of ''num_dorm_4''"] by auto
qed

theorem dorm_four_first_witness:
  "alias_to_key example_store (py_lower (py_strip (str_of ''Dormitory 4 bair''))) = None \<and>
   has_dorm_keyword (py_lower (py_strip (str_of ''Dormitory 4 bair''))) \<and>
   py_in (str_of ''4'') (py_lower (py_strip (str_of ''Dormitory 4 bair''))) \<and>
   map_option key (resolve example_store (str_of ''Dormitory 4 bair''))
     = Some (str_of ''num_dorm_4'')"
proof -
  let ?t = "py_lower (py_strip (str_of ''Dormitory 4 bair''))"
  have t: "?t = str_of ''dormitory 4 bair''" by (simp add: eval_strings)
  have a: "alias_to_key example_store ?t = None"
    unfolding t by (simp add: example_store_def str_of_def)
  have k: "has_dorm_keyword ?t"
    unfolding t by (simp add: has_dorm_keyword_def lit_dotuur_def str_of_def starts_with_def)
  have d: "py_in (str_of ''4'') ?t" "\<not> py_in (str_of ''1'') ?t" "\<not> py_in (str_of ''2'') ?t"
    "\<not> py_in (str_of ''3'') ?t"
    unfolding t by (simp_all add: str_of_def starts_with_def)
  have g: "map_option key (get_by_key example_store (str_of ''num_dorm_4''))
      = Some (str_of ''num_dorm_4'')"
    by (simp add: example_store_def get_by_key_def str_of_def)
  from dorm_four_first [OF refl a k d] g a k d(1) show ?thesis by simp
qed

text \<open>
  C4 as stated fails: \<open>dorm 14\<close> has a dormitory keyword and the digit 4, the place
  \<open>num_dorm_4\<close> is defined, and \<open>resolve\<close> returns the place \<open>num_dorm_1\<close>, since the digit
  1 is tried first.
\<close>

theorem dorm_fourteen_is_one:
  "has_dorm_keyword (py_lower (py_strip (str_of ''dorm 14''))) \<and>
   py_in (str_of ''4'') (py_lower (py_strip (str_of ''dorm 14''))) \<and>
   map_option key (get_by_key example_store (str_of ''num_dorm_4''))
     = Some (str_of ''num_dorm_4'') \<and>
   map_option key (resolve example_store (str_of ''dorm 14'')) = Some (str_of ''num_dorm_1'')"
proof -
  have t: "py_lower (py_strip (str_of ''dorm 14'')) = str_of ''dorm 14''"
    by (simp add: eval_strings)
  have "has_dorm_keyword (str_of ''dorm 14'')"
    by (simp add: has_dorm_keyword_def lit_dotuur_def str_of_def starts_with_def)
  moreover have "py_in (str_of ''4'') (str_of ''dorm 14'')"
    by (simp add: str_of_def starts_with_def)
  moreover have "map_option key (get_by_key example_store (str_of ''num_dorm_4''))
      = Some (str_of ''num_dorm_4'')"
    by (simp add: example_store_def get_by_key_def str_of_def)
  moreover have
    "map_option key (resolve example_store (str_of ''dorm 14'')) = Some (str_of ''num_dorm_1'')"
    by (simp add: example_store_def eval_resolve)
  ultimately show ?thesis unfolding t by blast
qed

text \<open>
  The example of C4 itself, \<open>4-r dotuur bair\<close> in Cyrillic letters, resolves to none on
  the store that defines \<open>num_dorm_4\<close>: the first keyword of line 91, as the source file
  spells it, has capital letters and occurs in no text in lower case.
\<close>

lemma resolve_dorm_4_cyrillic:
  "resolve example_store
     [0x34, 0x2D, 0x440, 0x20, 0x434, 0x43E, 0x442, 0x443, 0x443, 0x440, 0x20,
      0x431, 0x430, 0x439, 0x440] = None"
  by (simp add: example_store_def eval_resolve)

section \<open>The link of the reply\<close>




end
